theory Spec2Isabelle
  imports Main
begin

section \<open>Task List Manager: the task store of index.js\<close>

text \<open>
  The program keeps an array of task records in the file tasks.json and reloads it on
  every call. The model follows the source function by function. The durable file is an
  explicit state that every operation takes and returns; an exception is the left
  summand of the result.
\<close>

subsection \<open>Data model\<close>

text \<open>
  A task record as add_task builds it: \<^verbatim>\<open>{ id, title, completed, createdAt }\<close>. The field
  \<^verbatim>\<open>id\<close> is called \<open>task_id\<close> here, since \<open>id\<close> is the identity function of HOL.
  An identifier is an integer-valued JavaScript number, held as the integer it denotes;
  the arithmetic on identifiers rounds as IEEE 754 doubles do (see \<open>Number_add\<close>).
\<close>

record task =
  task_id :: int
  title :: string
  completed :: bool
  createdAt :: string

text \<open>
  The error codes a file-system call reports in \<^verbatim>\<open>error.code\<close>, and the exceptions that reach
  the catch block of readTasks: a system error of fs/promises, or the SyntaxError of
  JSON.parse.
\<close>

datatype errcode = ENOENT | EACCES | EPERM | EISDIR | EIO

datatype exn = SystemError errcode | SyntaxError

text \<open>
  The text of tasks.json, seen through JSON.parse: it is either the encoding of a task
  collection, as JSON.stringify produces it, or text that JSON.parse rejects. Text that
  parses to some other JSON value is not modelled. JSON.parse and JSON.stringify are
  library functions; the model keeps of them that parsing the encoding of a collection
  gives the collection back and that parsing malformed text raises a SyntaxError.
\<close>

datatype file_text = Encoded "task list" | Malformed string

text \<open>
  The durable file is in one of four states.
  \<^item> \<open>Absent\<close>: there is no file, and one can be created.
  \<^item> \<open>Contents t\<close>: the file holds the text \<open>t\<close> and can be read and written.
  \<^item> \<open>Inaccessible c\<close>: every access, read or write, fails with the code \<open>c\<close>:
    permission denied, a directory in place of the file, an I/O error, or, with ENOENT,
    no file and no way to create one (the directory of the path is missing).
  \<^item> \<open>ReadOnly s c\<close>: the file holds the text \<open>s\<close>, which JSON.parse rejects, and can
    be read, but every write fails with the code \<open>c\<close>.

  A file that holds an encoded collection is taken to be writable. The state of the
  storage is the file together with the number of calls of \<^verbatim>\<open>fs.writeFile\<close> made
  so far, so that a save is visible even when it writes what the file already holds.
\<close>

datatype file_state =
  Absent | Contents file_text | Inaccessible errcode | ReadOnly string errcode

record disk =
  tasks_file :: file_state
  writes :: nat

text \<open>What a tool handler returns: the \<^verbatim>\<open>isError\<close> flag and the text of its content.\<close>

record tool_result =
  isError :: bool
  content_text :: string

text \<open>What the resource handler returns.\<close>

record resource_result =
  uri :: string
  mimeType :: string
  resource_text :: file_text

subsection \<open>The library calls\<close>

definition readFile :: "disk \<Rightarrow> exn + file_text" where
  "readFile d =
     (case tasks_file d of
        Absent \<Rightarrow> Inl (SystemError ENOENT)
      | Contents data \<Rightarrow> Inr data
      | Inaccessible c \<Rightarrow> Inl (SystemError c)
      | ReadOnly s c \<Rightarrow> Inr (Malformed s))"

definition writeFile :: "disk \<Rightarrow> file_text \<Rightarrow> (exn + unit) \<times> disk" where
  "writeFile d data =
     (case tasks_file d of
        Inaccessible c \<Rightarrow> (Inl (SystemError c), d\<lparr>writes := writes d + 1\<rparr>)
      | ReadOnly s c \<Rightarrow> (Inl (SystemError c), d\<lparr>writes := writes d + 1\<rparr>)
      | _ \<Rightarrow> (Inr (), d\<lparr>tasks_file := Contents data, writes := writes d + 1\<rparr>))"

fun JSON_parse :: "file_text \<Rightarrow> exn + task list" where
  "JSON_parse (Encoded tasks) = Inr tasks"
| "JSON_parse (Malformed s) = Inl SyntaxError"

definition JSON_stringify :: "task list \<Rightarrow> file_text" where
  "JSON_stringify tasks = Encoded tasks"

text \<open>\<^verbatim>\<open>error.code\<close> and \<^verbatim>\<open>error instanceof SyntaxError\<close>.\<close>

fun code :: "exn \<Rightarrow> errcode option" where
  "code (SystemError c) = Some c"
| "code SyntaxError = None"

fun instanceof_SyntaxError :: "exn \<Rightarrow> bool" where
  "instanceof_SyntaxError SyntaxError = True"
| "instanceof_SyntaxError (SystemError c) = False"

text \<open>
  A number inside a template string: the decimal digits, with a sign when negative. This
  is what JavaScript prints for an integer of magnitude below \<open>10^21\<close>; from there on
  it prints an exponent form, which is not modelled.
\<close>

fun digits :: "nat \<Rightarrow> string" where
  "digits n =
     (if n < 10 then [''0123456789'' ! n]
      else digits (n div 10) @ [''0123456789'' ! (n mod 10)])"

declare digits.simps [simp del]

definition Number_toString :: "int \<Rightarrow> string" where
  "Number_toString n = (if n < 0 then ''-'' @ digits (nat (- n)) else digits (nat n))"

text \<open>\<^verbatim>\<open>Array.prototype.join\<close> with a separator.\<close>

fun join :: "string list \<Rightarrow> string \<Rightarrow> string" where
  "join [] sep = []"
| "join [x] sep = x"
| "join (x # y # ys) sep = x @ sep @ join (y # ys) sep"

text \<open>
  \<^verbatim>\<open>Array.prototype.find\<close> returns a reference to the first element that satisfies the
  predicate, or undefined. The reference is the position of the element in the array,
  so that the later assignment through it is an update at that position.
\<close>

fun find_ref :: "('a \<Rightarrow> bool) \<Rightarrow> 'a list \<Rightarrow> nat option" where
  "find_ref P [] = None"
| "find_ref P (x # xs) =
     (if P x then Some 0 else (case find_ref P xs of None \<Rightarrow> None | Some i \<Rightarrow> Some (Suc i)))"

subsection \<open>Persistence helpers\<close>

definition writeTasks :: "task list \<Rightarrow> disk \<Rightarrow> (exn + unit) \<times> disk" where
  "writeTasks tasks d = writeFile d (JSON_stringify tasks)"

text \<open>readTasks of lines 34 to 62: the missing and the unparsable file are reset on disk.\<close>

definition readTasks :: "disk \<Rightarrow> (exn + task list) \<times> disk" where
  "readTasks d =
     (case (case readFile d of Inl e \<Rightarrow> Inl e | Inr data \<Rightarrow> JSON_parse data) of
        Inr tasks \<Rightarrow> (Inr tasks, d)
      | Inl error \<Rightarrow>
          if code error = Some ENOENT then
            (case writeTasks [] d of
               (Inl e, d') \<Rightarrow> (Inl e, d')
             | (Inr u, d') \<Rightarrow> (Inr [], d'))
          else if instanceof_SyntaxError error then
            (case writeTasks [] d of
               (Inl e, d') \<Rightarrow> (Inl e, d')
             | (Inr u, d') \<Rightarrow> (Inr [], d'))
          else (Inl error, d))"

text \<open>
  readTasks of lines 286 to 297, the earlier text of the same helper: both cases return the
  empty array and nothing is written.
\<close>

definition readTasks_earlier :: "disk \<Rightarrow> (exn + task list) \<times> disk" where
  "readTasks_earlier d =
     (case (case readFile d of Inl e \<Rightarrow> Inl e | Inr data \<Rightarrow> JSON_parse data) of
        Inr tasks \<Rightarrow> (Inr tasks, d)
      | Inl error \<Rightarrow>
          if code error = Some ENOENT \<or> instanceof_SyntaxError error then (Inr [], d)
          else (Inl error, d))"

subsection \<open>Identifier allocation\<close>

text \<open>
  The sum of two numbers is the exact sum rounded to the nearest double, ties to the even
  significand. On integers: a magnitude below \<open>2^53\<close> is a double; a larger one keeps
  its 53 leading bits, \<open>excess\<close> being the number of bits dropped. (Sums beyond the
  largest double, about \<open>1.8 * 10^308\<close>, would be infinite; adding 1 to a double never
  gets there.)
\<close>

fun excess :: "nat \<Rightarrow> nat" where
  "excess m = (if m < 9007199254740992 then 0 else Suc (excess (m div 2)))"

declare excess.simps [simp del]

definition round_magnitude :: "nat \<Rightarrow> nat" where
  "round_magnitude m =
     (let e = excess m; q = m div 2 ^ e; r = m mod 2 ^ e
      in if 2 ^ e < 2 * r \<or> (2 * r = 2 ^ e \<and> odd q) then (q + 1) * 2 ^ e else q * 2 ^ e)"

definition round_to_double :: "int \<Rightarrow> int" where
  "round_to_double n =
     (if n < 0 then - int (round_magnitude (nat (- n))) else int (round_magnitude (nat n)))"

definition Number_add :: "int \<Rightarrow> int \<Rightarrow> int" where
  "Number_add a b = round_to_double (a + b)"

text \<open>\<^verbatim>\<open>Math.max(...xs)\<close> on a non-empty argument list, first argument apart.\<close>

definition Math_max :: "int \<Rightarrow> int list \<Rightarrow> int" where
  "Math_max x xs = fold max xs x"

fun getNextId :: "task list \<Rightarrow> int" where
  "getNextId [] = 1"
| "getNextId (t # ts) = Number_add (Math_max (task_id t) (map task_id ts)) 1"

subsection \<open>The tools and the resource\<close>

definition newline :: string where
  "newline = [CHR 0x0A]"

definition dquote :: string where
  "dquote = [CHR 0x22]"

text \<open>The dash of the listing line, U+2014, as the bytes of its UTF-8 encoding.\<close>

definition emdash :: string where
  "emdash = [CHR 0xE2, CHR 0x80, CHR 0x94]"

definition add_task :: "string \<Rightarrow> string \<Rightarrow> disk \<Rightarrow> (exn + tool_result) \<times> disk" where
  "add_task ttl now d =
     (case readTasks d of
        (Inl e, d1) \<Rightarrow> (Inl e, d1)
      | (Inr tasks, d1) \<Rightarrow>
          (let newTask = \<lparr>task_id = getNextId tasks, title = ttl,
                          completed = False, createdAt = now\<rparr>;
               tasks' = tasks @ [newTask]
           in case writeTasks tasks' d1 of
                (Inl e, d2) \<Rightarrow> (Inl e, d2)
              | (Inr u, d2) \<Rightarrow>
                  (Inr \<lparr>isError = False,
                        content_text =
                          ''Task added successfully!'' @ newline @ newline
                          @ ''  ID:    '' @ Number_toString (task_id newTask) @ newline
                          @ ''  Title: '' @ title newTask @ newline
                          @ ''  Date:  '' @ createdAt newTask\<rparr>, d2)))"

definition format_task :: "task \<Rightarrow> string" where
  "format_task t =
     (let status = (if completed t then ''done'' else ''pending'')
      in ''['' @ Number_toString (task_id t) @ ''] '' @ title t @ ''  ('' @ status
         @ '')  '' @ emdash @ '' created '' @ createdAt t)"

definition list_tasks :: "disk \<Rightarrow> (exn + tool_result) \<times> disk" where
  "list_tasks d =
     (case readTasks d of
        (Inl e, d1) \<Rightarrow> (Inl e, d1)
      | (Inr tasks, d1) \<Rightarrow>
          if length tasks = 0 then
            (Inr \<lparr>isError = False,
                  content_text = ''No tasks yet. Use add_task to create one!''\<rparr>, d1)
          else
            (let formatted = join (map format_task tasks) newline
             in (Inr \<lparr>isError = False,
                      content_text =
                        ''Tasks ('' @ Number_toString (int (length tasks)) @ ''):''
                        @ newline @ newline @ formatted\<rparr>, d1)))"

definition complete_task :: "int \<Rightarrow> disk \<Rightarrow> (exn + tool_result) \<times> disk" where
  "complete_task i d =
     (case readTasks d of
        (Inl e, d1) \<Rightarrow> (Inl e, d1)
      | (Inr tasks, d1) \<Rightarrow>
          (case find_ref (\<lambda>t. task_id t = i) tasks of
             None \<Rightarrow>
               (Inr \<lparr>isError = True,
                     content_text =
                       ''Error: No task found with ID '' @ Number_toString i @ ''.''\<rparr>, d1)
           | Some r \<Rightarrow>
               if completed (tasks ! r) then
                 (Inr \<lparr>isError = False,
                       content_text =
                         ''Task '' @ Number_toString i @ '' ('' @ dquote @ title (tasks ! r)
                         @ dquote @ '') is already marked as completed.''\<rparr>, d1)
               else
                 (let tasks' = tasks[r := (tasks ! r)\<lparr>completed := True\<rparr>]
                  in case writeTasks tasks' d1 of
                       (Inl e, d2) \<Rightarrow> (Inl e, d2)
                     | (Inr u, d2) \<Rightarrow>
                         (Inr \<lparr>isError = False,
                               content_text =
                                 ''Task '' @ Number_toString i @ '' ('' @ dquote
                                 @ title (tasks' ! r) @ dquote
                                 @ '') marked as completed!''\<rparr>, d2))))"

definition task_list :: "disk \<Rightarrow> (exn + resource_result) \<times> disk" where
  "task_list d =
     (case readTasks d of
        (Inl e, d1) \<Rightarrow> (Inl e, d1)
      | (Inr tasks, d1) \<Rightarrow>
          (Inr \<lparr>uri = ''tasks://list'', mimeType = ''application/json'',
                resource_text = JSON_stringify tasks\<rparr>, d1))"

subsection \<open>Runs of calls\<close>

text \<open>A sequence of add_task calls, each with its title and the time of the call.\<close>

fun add_task_seq :: "(string \<times> string) list \<Rightarrow> disk \<Rightarrow> disk" where
  "add_task_seq [] d = d"
| "add_task_seq ((ttl, now) # calls) d = add_task_seq calls (snd (add_task ttl now d))"

text \<open>The four operations of the server, and the effect of a call on the storage.\<close>

datatype operation = AddTask string string | ListTasks | CompleteTask int | Snapshot

fun run_op :: "operation \<Rightarrow> disk \<Rightarrow> disk" where
  "run_op (AddTask ttl now) d = snd (add_task ttl now d)"
| "run_op ListTasks d = snd (list_tasks d)"
| "run_op (CompleteTask i) d = snd (complete_task i d)"
| "run_op Snapshot d = snd (task_list d)"

fun run_ops :: "operation list \<Rightarrow> disk \<Rightarrow> disk" where
  "run_ops [] d = d"
| "run_ops (op # ops) d = run_ops ops (run_op op d)"

text \<open>
  What may happen to the tasks of a collection \<open>ts\<close> on the way to a later collection
  \<open>ts'\<close>: every task of \<open>ts\<close> is still at its position, with the same id, title and
  creation time, and is completed in \<open>ts'\<close> if it was completed in \<open>ts\<close>.
\<close>

definition preserved :: "task list \<Rightarrow> task list \<Rightarrow> bool" where
  "preserved ts ts' \<longleftrightarrow>
     length ts \<le> length ts'
     \<and> (\<forall>k<length ts.
          task_id (ts' ! k) = task_id (ts ! k)
          \<and> title (ts' ! k) = title (ts ! k)
          \<and> createdAt (ts' ! k) = createdAt (ts ! k)
          \<and> (completed (ts ! k) \<longrightarrow> completed (ts' ! k)))"

text \<open>The lines of a text: its pieces between newline characters.\<close>

fun split_lines :: "string \<Rightarrow> string list" where
  "split_lines [] = [[]]"
| "split_lines (c # cs) =
     (if c = CHR 0x0A then [] # split_lines cs
      else (case split_lines cs of [] \<Rightarrow> [[c]] | l # ls \<Rightarrow> (c # l) # ls))"

section \<open>Properties\<close>

text \<open>The definitions unfolded to evaluate a call on a concrete storage.\<close>

lemmas eval_defs = readTasks_def readFile_def writeTasks_def writeFile_def JSON_stringify_def
  add_task_def list_tasks_def complete_task_def task_list_def Let_def Math_max_def
  Number_toString_def digits.simps format_task_def
  Number_add_def round_to_double_def round_magnitude_def excess.simps

subsection \<open>What readTasks returns in each state of the file\<close>

lemma readTasks_Absent:
  "tasks_file d = Absent \<Longrightarrow>
   readTasks d = (Inr [], d\<lparr>tasks_file := Contents (Encoded []), writes := writes d + 1\<rparr>)"
  by (simp add: readTasks_def readFile_def writeTasks_def writeFile_def JSON_stringify_def)

lemma readTasks_Malformed:
  "tasks_file d = Contents (Malformed s) \<Longrightarrow>
   readTasks d = (Inr [], d\<lparr>tasks_file := Contents (Encoded []), writes := writes d + 1\<rparr>)"
  by (simp add: readTasks_def readFile_def writeTasks_def writeFile_def JSON_stringify_def)

lemma readTasks_Encoded: "tasks_file d = Contents (Encoded ts) \<Longrightarrow> readTasks d = (Inr ts, d)"
  by (simp add: readTasks_def readFile_def)

lemma readTasks_Inaccessible:
  "tasks_file d = Inaccessible c \<Longrightarrow> c \<noteq> ENOENT \<Longrightarrow> readTasks d = (Inl (SystemError c), d)"
  by (simp add: readTasks_def readFile_def)

lemma readTasks_Inaccessible_ENOENT:
  "tasks_file d = Inaccessible ENOENT \<Longrightarrow>
   readTasks d = (Inl (SystemError ENOENT), d\<lparr>writes := writes d + 1\<rparr>)"
  by (simp add: readTasks_def readFile_def writeTasks_def writeFile_def)

lemma readTasks_ReadOnly:
  "tasks_file d = ReadOnly s c \<Longrightarrow>
   readTasks d = (Inl (SystemError c), d\<lparr>writes := writes d + 1\<rparr>)"
  by (simp add: readTasks_def readFile_def writeTasks_def writeFile_def)

text \<open>A load that returns a collection leaves exactly that collection in the file.\<close>

lemma readTasks_Inr_file:
  assumes "readTasks d = (Inr ts, d1)"
  shows "tasks_file d1 = Contents (Encoded ts)"
proof (cases "tasks_file d")
  case Absent
  with assms show ?thesis by (auto simp: readTasks_Absent)
next
  case (Contents t)
  with assms show ?thesis
    by (cases t) (auto simp: readTasks_Malformed readTasks_Encoded)
next
  case (Inaccessible c)
  with assms show ?thesis
    by (cases "c = ENOENT") (auto simp: readTasks_Inaccessible readTasks_Inaccessible_ENOENT)
next
  case (ReadOnly s c)
  with assms show ?thesis by (simp add: readTasks_ReadOnly)
qed

lemma readTasks_again:
  assumes "readTasks d = (Inr ts, d1)"
  shows "readTasks d1 = (Inr ts, d1)"
  using readTasks_Inr_file [OF assms] by (rule readTasks_Encoded)

text \<open>A load that raises leaves the file as it was.\<close>

lemma readTasks_Inl_file:
  assumes "readTasks d = (Inl e, d')"
  shows "tasks_file d' = tasks_file d"
proof (cases "tasks_file d")
  case Absent
  with assms show ?thesis by (simp add: readTasks_Absent)
next
  case (Contents t)
  with assms show ?thesis
    by (cases t) (auto simp: readTasks_Malformed readTasks_Encoded)
next
  case (Inaccessible c)
  with assms show ?thesis
    by (cases "c = ENOENT") (auto simp: readTasks_Inaccessible readTasks_Inaccessible_ENOENT)
next
  case (ReadOnly s c)
  with assms show ?thesis by (auto simp: readTasks_ReadOnly)
qed

text \<open>A write that goes through leaves the data in the file; one that fails, the file.\<close>

lemma writeTasks_Inr:
  assumes "writeTasks tasks d = (Inr u, d')"
  shows "d' = d\<lparr>tasks_file := Contents (JSON_stringify tasks), writes := writes d + 1\<rparr>"
  using assms by (cases "tasks_file d") (auto simp: writeTasks_def writeFile_def)

lemma writeTasks_Inl:
  assumes "writeTasks tasks d = (Inl e, d')"
  shows "d' = d\<lparr>writes := writes d + 1\<rparr>"
  using assms by (cases "tasks_file d") (auto simp: writeTasks_def writeFile_def)




text \<open>
  C8. When reading and parsing the file raises an exception whose code is not ENOENT and
  which is not a SyntaxError, readTasks raises that same exception, and the storage is as
  it was before the call: the file is the same and nothing was written. Whenever
  readTasks raises, the file is the one before the call.
\<close>

theorem readTasks_rethrows:
  "((case readFile d of Inl x \<Rightarrow> Inl x | Inr data \<Rightarrow> JSON_parse data) = Inl e
      \<and> code e \<noteq> Some ENOENT \<and> \<not> instanceof_SyntaxError e
    \<longrightarrow> readTasks d = (Inl e, d))
   \<and> (readTasks d = (Inl e', d') \<longrightarrow> tasks_file d' = tasks_file d)"
proof (intro conjI impI)
  assume "(case readFile d of Inl x \<Rightarrow> Inl x | Inr data \<Rightarrow> JSON_parse data) = Inl e
      \<and> code e \<noteq> Some ENOENT \<and> \<not> instanceof_SyntaxError e"
  then show "readTasks d = (Inl e, d)" by (simp add: readTasks_def)
next
  assume "readTasks d = (Inl e', d')"
  then show "tasks_file d' = tasks_file d" by (rule readTasks_Inl_file)
qed

theorem readTasks_rethrows_witness:
  "(case readFile \<lparr>tasks_file = Inaccessible EACCES, writes = 0\<rparr> of
      Inl x \<Rightarrow> Inl x | Inr data \<Rightarrow> JSON_parse data) = Inl (SystemError EACCES)
   \<and> code (SystemError EACCES) \<noteq> Some ENOENT
   \<and> \<not> instanceof_SyntaxError (SystemError EACCES)
   \<and> readTasks \<lparr>tasks_file = Inaccessible EACCES, writes = 0\<rparr>
       = (Inl (SystemError EACCES), \<lparr>tasks_file = Inaccessible EACCES, writes = 0\<rparr>)"
  using readTasks_rethrows
    [of "\<lparr>tasks_file = Inaccessible EACCES, writes = 0\<rparr>" "SystemError EACCES"
        "SystemError EACCES" "\<lparr>tasks_file = Inaccessible EACCES, writes = 0\<rparr>"]
  by (simp add: readFile_def)

subsection \<open>The two texts of readTasks\<close>

text \<open>
  C9, as stated, fails. On an absent file that can be created the two variants return
  the same value, but the later one leaves the encoded empty array on disk and the
  earlier one leaves the file absent. With no file and no way to create one they do not
  even return the same: the later variant raises the failure of its write, the earlier
  one returns the empty collection.
\<close>

theorem readTasks_variants_counterexample:
  "tasks_file (snd (readTasks \<lparr>tasks_file = Absent, writes = 0\<rparr>)) = Contents (Encoded [])
   \<and> tasks_file (snd (readTasks_earlier \<lparr>tasks_file = Absent, writes = 0\<rparr>)) = Absent
   \<and> snd (readTasks \<lparr>tasks_file = Absent, writes = 0\<rparr>)
       \<noteq> snd (readTasks_earlier \<lparr>tasks_file = Absent, writes = 0\<rparr>)
   \<and> fst (readTasks \<lparr>tasks_file = Inaccessible ENOENT, writes = 0\<rparr>)
       = Inl (SystemError ENOENT)
   \<and> fst (readTasks_earlier \<lparr>tasks_file = Inaccessible ENOENT, writes = 0\<rparr>) = Inr []"
  by (simp add: readTasks_Absent readTasks_Inaccessible_ENOENT readTasks_earlier_def
      readFile_def)

text \<open>
  C9, amended; the statement covers every state of the storage. When the file is read
  and parsed, both variants return the parsed collection and leave the storage as it
  is. When reading or parsing raises an exception that is neither ENOENT nor a
  SyntaxError, both raise it and leave the storage as it is. When the read fails with
  ENOENT or the parse with a SyntaxError, the earlier variant returns the empty
  collection and leaves the storage as it is; the later variant writes the empty array
  first: if the write goes through it returns the empty collection too and leaves the
  encoded empty array in the file, and if the write fails it raises that failure.
\<close>

theorem readTasks_variants:
  "((case readFile d of Inl x \<Rightarrow> Inl x | Inr data \<Rightarrow> JSON_parse data) = Inr ts \<longrightarrow>
      readTasks d = (Inr ts, d) \<and> readTasks_earlier d = (Inr ts, d))
   \<and> ((case readFile d of Inl x \<Rightarrow> Inl x | Inr data \<Rightarrow> JSON_parse data) = Inl e
        \<and> code e \<noteq> Some ENOENT \<and> \<not> instanceof_SyntaxError e \<longrightarrow>
      readTasks d = (Inl e, d) \<and> readTasks_earlier d = (Inl e, d))
   \<and> ((case readFile d of Inl x \<Rightarrow> Inl x | Inr data \<Rightarrow> JSON_parse data) = Inl e
        \<and> (code e = Some ENOENT \<or> instanceof_SyntaxError e) \<longrightarrow>
      readTasks_earlier d = (Inr [], d)
      \<and> (writeTasks [] d = (Inr u, d1) \<longrightarrow>
           readTasks d = (Inr [], d1)
           \<and> d1 = d\<lparr>tasks_file := Contents (JSON_stringify []), writes := writes d + 1\<rparr>)
      \<and> (writeTasks [] d = (Inl e', d2) \<longrightarrow>
           readTasks d = (Inl e', d2) \<and> tasks_file d2 = tasks_file d))"
proof (intro conjI impI)
  assume "(case readFile d of Inl x \<Rightarrow> Inl x | Inr data \<Rightarrow> JSON_parse data) = Inr ts"
  then show "readTasks d = (Inr ts, d)" and "readTasks_earlier d = (Inr ts, d)"
    by (simp_all add: readTasks_def readTasks_earlier_def)
next
  assume "(case readFile d of Inl x \<Rightarrow> Inl x | Inr data \<Rightarrow> JSON_parse data) = Inl e
        \<and> code e \<noteq> Some ENOENT \<and> \<not> instanceof_SyntaxError e"
  then show "readTasks d = (Inl e, d)" and "readTasks_earlier d = (Inl e, d)"
    by (simp_all add: readTasks_def readTasks_earlier_def)
next
  assume h: "(case readFile d of Inl x \<Rightarrow> Inl x | Inr data \<Rightarrow> JSON_parse data) = Inl e
        \<and> (code e = Some ENOENT \<or> instanceof_SyntaxError e)"
  then show "readTasks_earlier d = (Inr [], d)"
    by (auto simp: readTasks_earlier_def)
  {
    assume w: "writeTasks [] d = (Inr u, d1)"
    show "readTasks d = (Inr [], d1)"
      using h w by (auto simp: readTasks_def)
    show "d1 = d\<lparr>tasks_file := Contents (JSON_stringify []), writes := writes d + 1\<rparr>"
      using w by (rule writeTasks_Inr)
  }
  {
    assume w: "writeTasks [] d = (Inl e', d2)"
    show "readTasks d = (Inl e', d2)"
      using h w by (auto simp: readTasks_def)
    show "tasks_file d2 = tasks_file d"
      using writeTasks_Inl [OF w] by simp
  }
qed

theorem readTasks_variants_witness:
  "readTasks \<lparr>tasks_file = Absent, writes = 0\<rparr>
     = (Inr [], \<lparr>tasks_file = Contents (JSON_stringify []), writes = 1\<rparr>)
   \<and> readTasks_earlier \<lparr>tasks_file = Absent, writes = 0\<rparr>
     = (Inr [], \<lparr>tasks_file = Absent, writes = 0\<rparr>)
   \<and> readTasks \<lparr>tasks_file = Inaccessible ENOENT, writes = 0\<rparr>
     = (Inl (SystemError ENOENT), \<lparr>tasks_file = Inaccessible ENOENT, writes = 1\<rparr>)
   \<and> readTasks_earlier \<lparr>tasks_file = Inaccessible ENOENT, writes = 0\<rparr>
     = (Inr [], \<lparr>tasks_file = Inaccessible ENOENT, writes = 0\<rparr>)
   \<and> readTasks \<lparr>tasks_file = Inaccessible EACCES, writes = 0\<rparr>
     = (Inl (SystemError EACCES), \<lparr>tasks_file = Inaccessible EACCES, writes = 0\<rparr>)
   \<and> readTasks_earlier \<lparr>tasks_file = Inaccessible EACCES, writes = 0\<rparr>
     = (Inl (SystemError EACCES), \<lparr>tasks_file = Inaccessible EACCES, writes = 0\<rparr>)
   \<and> readTasks \<lparr>tasks_file = Contents (Encoded []), writes = 1\<rparr>
     = (Inr [], \<lparr>tasks_file = Contents (Encoded []), writes = 1\<rparr>)
   \<and> readTasks_earlier \<lparr>tasks_file = Contents (Encoded []), writes = 1\<rparr>
     = (Inr [], \<lparr>tasks_file = Contents (Encoded []), writes = 1\<rparr>)"
proof -
  have a: "readTasks \<lparr>tasks_file = Absent, writes = 0\<rparr>
       = (Inr [], \<lparr>tasks_file = Contents (JSON_stringify []), writes = 1\<rparr>)
     \<and> readTasks_earlier \<lparr>tasks_file = Absent, writes = 0\<rparr>
       = (Inr [], \<lparr>tasks_file = Absent, writes = 0\<rparr>)"
    using readTasks_variants
      [of "\<lparr>tasks_file = Absent, writes = 0\<rparr>" "[]" "SystemError ENOENT" "()"
          "\<lparr>tasks_file = Contents (JSON_stringify []), writes = 1\<rparr>"
          "SystemError ENOENT" "\<lparr>tasks_file = Absent, writes = 0\<rparr>"]
    by (simp add: readFile_def writeTasks_def writeFile_def)
  have b: "readTasks \<lparr>tasks_file = Inaccessible ENOENT, writes = 0\<rparr>
       = (Inl (SystemError ENOENT), \<lparr>tasks_file = Inaccessible ENOENT, writes = 1\<rparr>)
     \<and> readTasks_earlier \<lparr>tasks_file = Inaccessible ENOENT, writes = 0\<rparr>
       = (Inr [], \<lparr>tasks_file = Inaccessible ENOENT, writes = 0\<rparr>)"
    using readTasks_variants
      [of "\<lparr>tasks_file = Inaccessible ENOENT, writes = 0\<rparr>" "[]" "SystemError ENOENT" "()"
          "\<lparr>tasks_file = Absent, writes = 0\<rparr>"
          "SystemError ENOENT" "\<lparr>tasks_file = Inaccessible ENOENT, writes = 1\<rparr>"]
    by (simp add: readFile_def writeTasks_def writeFile_def)
  have c: "readTasks \<lparr>tasks_file = Inaccessible EACCES, writes = 0\<rparr>
       = (Inl (SystemError EACCES), \<lparr>tasks_file = Inaccessible EACCES, writes = 0\<rparr>)
     \<and> readTasks_earlier \<lparr>tasks_file = Inaccessible EACCES, writes = 0\<rparr>
       = (Inl (SystemError EACCES), \<lparr>tasks_file = Inaccessible EACCES, writes = 0\<rparr>)"
    using readTasks_variants
      [of "\<lparr>tasks_file = Inaccessible EACCES, writes = 0\<rparr>" "[]" "SystemError EACCES" "()"
          "\<lparr>tasks_file = Absent, writes = 0\<rparr>"
          "SystemError EACCES" "\<lparr>tasks_file = Absent, writes = 0\<rparr>"]
    by (simp add: readFile_def)
  have e: "readTasks \<lparr>tasks_file = Contents (Encoded []), writes = 1\<rparr>
       = (Inr [], \<lparr>tasks_file = Contents (Encoded []), writes = 1\<rparr>)
     \<and> readTasks_earlier \<lparr>tasks_file = Contents (Encoded []), writes = 1\<rparr>
       = (Inr [], \<lparr>tasks_file = Contents (Encoded []), writes = 1\<rparr>)"
    using readTasks_variants
      [of "\<lparr>tasks_file = Contents (Encoded []), writes = 1\<rparr>" "[]" "SyntaxError" "()"
          "\<lparr>tasks_file = Absent, writes = 0\<rparr>"
          "SyntaxError" "\<lparr>tasks_file = Absent, writes = 0\<rparr>"]
    by (simp add: readFile_def)
  from a b c e show ?thesis by simp
qed

subsection \<open>Identifier allocation and add_task\<close>

text \<open>Adding 1 is exact on the integers of magnitude below \<open>2^53 = 9007199254740992\<close>.\<close>

lemma excess_small: "m < 9007199254740992 \<Longrightarrow> excess m = 0"
  by (simp add: excess.simps)

lemma round_magnitude_exact: "m \<le> 9007199254740992 \<Longrightarrow> round_magnitude m = m"
proof (cases "m < 9007199254740992")
  case True
  then show ?thesis by (simp add: round_magnitude_def excess_small)
next
  case False
  assume "m \<le> 9007199254740992"
  with False have m: "m = 9007199254740992" by simp
  have "excess (9007199254740992::nat) = 1" by (simp add: excess.simps)
  then show ?thesis unfolding m by (simp add: round_magnitude_def)
qed

lemma round_to_double_exact: "\<bar>n\<bar> \<le> 9007199254740992 \<Longrightarrow> round_to_double n = n"
  by (simp add: round_to_double_def round_magnitude_exact)

lemma Number_add_one: "\<bar>n\<bar> < 9007199254740992 \<Longrightarrow> Number_add n 1 = n + 1"
  by (simp add: Number_add_def round_to_double_exact)

lemma Math_max_Max: "Math_max x xs = Max (insert x (set xs))"
  using Max.set_eq_fold [of x xs] by (simp add: Math_max_def)

lemma Max_ids_bounded:
  assumes "ts \<noteq> []" and "\<forall>t\<in>set ts. \<bar>task_id t\<bar> < 9007199254740992"
  shows "\<bar>Max (task_id ` set ts)\<bar> < 9007199254740992"
proof -
  have "Max (task_id ` set ts) \<in> task_id ` set ts"
    using assms(1) by (intro Max_in) simp_all
  with assms(2) show ?thesis by auto
qed

lemma getNextId_nonempty:
  assumes "ts \<noteq> []" and "\<forall>t\<in>set ts. \<bar>task_id t\<bar> < 9007199254740992"
  shows "getNextId ts = Max (task_id ` set ts) + 1"
proof -
  obtain t ts' where ts: "ts = t # ts'" using assms(1) by (cases ts) auto
  have "getNextId ts = Number_add (Max (task_id ` set ts)) 1"
    by (simp add: ts Math_max_Max)
  with Number_add_one [OF Max_ids_bounded [OF assms]] show ?thesis by simp
qed

lemma getNextId_greater:
  assumes "t \<in> set ts" and "\<forall>t\<in>set ts. \<bar>task_id t\<bar> < 9007199254740992"
  shows "task_id t < getNextId ts"
proof -
  from assms(1) have ne: "ts \<noteq> []" by auto
  have "task_id t \<le> Max (task_id ` set ts)" using assms(1) by simp
  then show ?thesis using getNextId_nonempty [OF ne assms(2)] by simp
qed

lemma getNextId_lower:
  assumes "\<forall>t\<in>set ts. \<bar>task_id t\<bar> < 9007199254740992"
  shows "- 9007199254740992 < getNextId ts"
proof (cases "ts = []")
  case True
  then show ?thesis by simp
next
  case False
  from Max_ids_bounded [OF False assms] getNextId_nonempty [OF False assms]
  show ?thesis by simp
qed

lemma getNextId_snoc:
  assumes b: "\<forall>t\<in>set ts. \<bar>task_id t\<bar> < 9007199254740992"
    and eq: "task_id t = getNextId ts"
    and bt: "\<bar>task_id t\<bar> < 9007199254740992"
  shows "getNextId (ts @ [t]) = getNextId ts + 1"
proof -
  have b': "\<forall>x\<in>set (ts @ [t]). \<bar>task_id x\<bar> < 9007199254740992"
    using b bt by auto
  have "Max (task_id ` set (ts @ [t])) = task_id t"
  proof (cases "ts = []")
    case True
    then show ?thesis by simp
  next
    case False
    have "Max (task_id ` set (ts @ [t])) = max (task_id t) (Max (task_id ` set ts))"
      using False by simp
    also have "\<dots> = task_id t"
      using eq getNextId_nonempty [OF False b] by simp
    finally show ?thesis .
  qed
  then show ?thesis
    using eq getNextId_nonempty [of "ts @ [t]", OF _ b'] by simp
qed

lemma add_task_loaded:
  assumes "readTasks d = (Inr ts, d1)"
  shows "add_task ttl now d =
    (Inr \<lparr>isError = False,
          content_text =
            ''Task added successfully!'' @ newline @ newline
            @ ''  ID:    '' @ Number_toString (getNextId ts) @ newline
            @ ''  Title: '' @ ttl @ newline
            @ ''  Date:  '' @ now\<rparr>,
     d1\<lparr>tasks_file := Contents (Encoded (ts @ [\<lparr>task_id = getNextId ts, title = ttl,
                               completed = False, createdAt = now\<rparr>])),
        writes := writes d1 + 1\<rparr>)"
proof -
  have "tasks_file d1 = Contents (Encoded ts)" using assms by (rule readTasks_Inr_file)
  then show ?thesis
    using assms by (simp add: add_task_def writeTasks_def writeFile_def JSON_stringify_def Let_def)
qed

lemma upt_0_Suc: "[0..<Suc n] = 0 # map Suc [0..<n]"
  by (simp add: upt_conv_Cons map_Suc_upt del: upt_Suc)

text \<open>Every add_task call appends one task, whatever the ids.\<close>

lemma add_task_seq_appends:
  assumes "readTasks d = (Inr ts, d1)"
  shows "\<exists>new. fst (readTasks (add_task_seq calls d)) = Inr (ts @ new)
           \<and> map title new = map fst calls"
  using assms
proof (induction calls arbitrary: d ts d1)
  case Nil
  then show ?case by simp
next
  case (Cons call calls)
  obtain ttl now where call: "call = (ttl, now)" by (cases call)
  define n1 where
    "n1 = \<lparr>task_id = getNextId ts, title = ttl, completed = False, createdAt = now\<rparr>"
  define d2 where "d2 = snd (add_task ttl now d)"
  have step: "tasks_file d2 = Contents (Encoded (ts @ [n1]))"
    using add_task_loaded [OF Cons.prems] by (simp add: n1_def d2_def)
  have rd: "readTasks d2 = (Inr (ts @ [n1]), d2)"
    using step by (rule readTasks_Encoded)
  from Cons.IH [OF rd] obtain new where
    r: "fst (readTasks (add_task_seq calls d2)) = Inr ((ts @ [n1]) @ new)"
    and t: "map title new = map fst calls"
    by blast
  have "fst (readTasks (add_task_seq (call # calls) d)) = Inr (ts @ (n1 # new))"
    using r call by (simp add: d2_def)
  moreover have "map title (n1 # new) = map fst (call # calls)"
    using t call by (simp add: n1_def)
  ultimately show ?case by blast
qed

text \<open>While the ids stay below \<open>2^53\<close>, the calls allocate consecutive ids.\<close>

lemma add_task_seq_ids:
  assumes "readTasks d = (Inr ts, d1)"
    and "\<forall>t\<in>set ts. \<bar>task_id t\<bar> < 9007199254740992"
    and "getNextId ts + int (length calls) \<le> 9007199254740992"
  shows "\<exists>new. fst (readTasks (add_task_seq calls d)) = Inr (ts @ new)
           \<and> map task_id new = map (\<lambda>k. getNextId ts + int k) [0..<length calls]"
  using assms
proof (induction calls arbitrary: d ts d1)
  case Nil
  then show ?case by simp
next
  case (Cons call calls)
  obtain ttl now where call: "call = (ttl, now)" by (cases call)
  define n1 where
    "n1 = \<lparr>task_id = getNextId ts, title = ttl, completed = False, createdAt = now\<rparr>"
  define d2 where "d2 = snd (add_task ttl now d)"
  have step: "tasks_file d2 = Contents (Encoded (ts @ [n1]))"
    using add_task_loaded [OF Cons.prems(1)] by (simp add: n1_def d2_def)
  have rd: "readTasks d2 = (Inr (ts @ [n1]), d2)"
    using step by (rule readTasks_Encoded)
  have bn: "\<bar>task_id n1\<bar> < 9007199254740992"
    using getNextId_lower [OF Cons.prems(2)] Cons.prems(3) by (simp add: n1_def)
  have nx: "getNextId (ts @ [n1]) = getNextId ts + 1"
    using Cons.prems(2) _ bn by (rule getNextId_snoc) (simp add: n1_def)
  have b': "\<forall>t\<in>set (ts @ [n1]). \<bar>task_id t\<bar> < 9007199254740992"
    using Cons.prems(2) bn by auto
  have le: "getNextId (ts @ [n1]) + int (length calls) \<le> 9007199254740992"
    using Cons.prems(3) nx by simp
  from Cons.IH [OF rd b' le] obtain new where
    r: "fst (readTasks (add_task_seq calls d2)) = Inr ((ts @ [n1]) @ new)"
    and i: "map task_id new = map (\<lambda>k. getNextId (ts @ [n1]) + int k) [0..<length calls]"
    by blast
  have ids: "map task_id (n1 # new)
      = map (\<lambda>k. getNextId ts + int k) [0..<length (call # calls)]"
    using i nx by (simp add: upt_0_Suc n1_def del: upt_Suc)
  have "fst (readTasks (add_task_seq (call # calls) d)) = Inr (ts @ (n1 # new))"
    using r call by (simp add: d2_def)
  with ids show ?case by blast
qed

lemma sorted_wrt_consecutive: "sorted_wrt (<) (map (\<lambda>k. (b::int) + int k) [0..<n])"
  by (simp add: sorted_wrt_map sorted_wrt_iff_nth_less)

text \<open>
  C2, as stated, fails. On a collection whose greatest id is \<open>2^53\<close> the sum
  \<open>2^53 + 1\<close> is rounded to \<open>2^53\<close>: getNextId returns the greatest id itself, and
  add_task stores a second task with that id.
\<close>

theorem getNextId_add_task_seq_counterexample:
  "getNextId [\<lparr>task_id = 9007199254740992, title = ''a'', completed = False,
               createdAt = ''t0''\<rparr>] = 9007199254740992
   \<and> fst (readTasks (snd (add_task ''b'' ''t1''
         \<lparr>tasks_file = Contents (Encoded
            [\<lparr>task_id = 9007199254740992, title = ''a'', completed = False,
               createdAt = ''t0''\<rparr>]), writes = 0\<rparr>)))
       = Inr [\<lparr>task_id = 9007199254740992, title = ''a'', completed = False,
                createdAt = ''t0''\<rparr>,
              \<lparr>task_id = 9007199254740992, title = ''b'', completed = False,
                createdAt = ''t1''\<rparr>]"
  by (simp add: eval_defs)

text \<open>
  C2, amended. getNextId returns 1 on the empty collection and, on a non-empty collection
  whose ids have magnitude below \<open>2^53\<close>, the greatest id plus one, which is greater
  than every id of the collection. Whenever the load returns a collection \<open>ts\<close>: one
  add_task call reports the allocated id and stores \<open>ts\<close> with the new task at the end,
  and after any sequence of add_task calls the collection is \<open>ts\<close> followed by one
  new task per call. If moreover the ids of \<open>ts\<close> have magnitude below \<open>2^53\<close> and
  the ids allocated stay below \<open>2^53\<close>, the new tasks have the ids \<open>getNextId ts\<close>,
  \<open>getNextId ts + 1\<close>, ... in call order: strictly increasing, and greater than every
  id of \<open>ts\<close>.
\<close>

theorem getNextId_add_task_seq:
  "getNextId [] = 1
   \<and> (us \<noteq> [] \<and> (\<forall>t\<in>set us. \<bar>task_id t\<bar> < 9007199254740992) \<longrightarrow>
        getNextId us = Max (task_id ` set us) + 1
        \<and> (\<forall>t\<in>set us. task_id t < getNextId us))
   \<and> (readTasks d = (Inr ts, d1) \<longrightarrow>
        (\<exists>r d2. add_task ttl now d = (Inr r, d2)
              \<and> content_text r =
                  ''Task added successfully!'' @ newline @ newline
                  @ ''  ID:    '' @ Number_toString (getNextId ts) @ newline
                  @ ''  Title: '' @ ttl @ newline
                  @ ''  Date:  '' @ now
              \<and> tasks_file d2 = Contents (JSON_stringify
                  (ts @ [\<lparr>task_id = getNextId ts, title = ttl, completed = False,
                           createdAt = now\<rparr>])))
        \<and> (\<exists>new. fst (readTasks (add_task_seq calls d)) = Inr (ts @ new)
              \<and> length (ts @ new) = length ts + length calls)
        \<and> ((\<forall>t\<in>set ts. \<bar>task_id t\<bar> < 9007199254740992)
            \<and> getNextId ts + int (length calls) \<le> 9007199254740992 \<longrightarrow>
            (\<exists>new. fst (readTasks (add_task_seq calls d)) = Inr (ts @ new)
              \<and> map task_id new = map (\<lambda>k. getNextId ts + int k) [0..<length calls]
              \<and> sorted_wrt (<) (map task_id new)
              \<and> (\<forall>t\<in>set ts. \<forall>n\<in>set new. task_id t < task_id n))))"
proof (intro conjI impI)
  show "getNextId [] = 1" by simp
next
  assume h: "us \<noteq> [] \<and> (\<forall>t\<in>set us. \<bar>task_id t\<bar> < 9007199254740992)"
  then show "getNextId us = Max (task_id ` set us) + 1"
    by (simp add: getNextId_nonempty)
  from h show "\<forall>t\<in>set us. task_id t < getNextId us"
    by (simp add: getNextId_greater)
next
  assume ld: "readTasks d = (Inr ts, d1)"
  show "\<exists>r d2. add_task ttl now d = (Inr r, d2)
          \<and> content_text r =
              ''Task added successfully!'' @ newline @ newline
              @ ''  ID:    '' @ Number_toString (getNextId ts) @ newline
              @ ''  Title: '' @ ttl @ newline
              @ ''  Date:  '' @ now
          \<and> tasks_file d2 = Contents (JSON_stringify
              (ts @ [\<lparr>task_id = getNextId ts, title = ttl, completed = False,
                       createdAt = now\<rparr>]))"
    using add_task_loaded [OF ld, of ttl now] by (simp add: JSON_stringify_def)
  from add_task_seq_appends [OF ld, of calls] obtain new where
    r: "fst (readTasks (add_task_seq calls d)) = Inr (ts @ new)"
    and t: "map title new = map fst calls"
    by blast
  have "length new = length calls" using arg_cong [OF t, of length] by simp
  with r show "\<exists>new. fst (readTasks (add_task_seq calls d)) = Inr (ts @ new)
              \<and> length (ts @ new) = length ts + length calls"
    by auto
next
  assume ld: "readTasks d = (Inr ts, d1)"
  assume h: "(\<forall>t\<in>set ts. \<bar>task_id t\<bar> < 9007199254740992)
            \<and> getNextId ts + int (length calls) \<le> 9007199254740992"
  then have b: "\<forall>t\<in>set ts. \<bar>task_id t\<bar> < 9007199254740992"
    and le: "getNextId ts + int (length calls) \<le> 9007199254740992"
    by simp_all
  from add_task_seq_ids [OF ld b le] obtain new where
    r: "fst (readTasks (add_task_seq calls d)) = Inr (ts @ new)"
    and i: "map task_id new = map (\<lambda>k. getNextId ts + int k) [0..<length calls]"
    by blast
  have srt: "sorted_wrt (<) (map task_id new)"
    unfolding i by (rule sorted_wrt_consecutive)
  have gt: "\<forall>t\<in>set ts. \<forall>n\<in>set new. task_id t < task_id n"
  proof (intro ballI)
    fix t n assume t: "t \<in> set ts" and n: "n \<in> set new"
    from n have "task_id n \<in> set (map task_id new)" by simp
    then have "getNextId ts \<le> task_id n" unfolding i by auto
    with getNextId_greater [OF t b] show "task_id t < task_id n" by simp
  qed
  show "\<exists>new. fst (readTasks (add_task_seq calls d)) = Inr (ts @ new)
          \<and> map task_id new = map (\<lambda>k. getNextId ts + int k) [0..<length calls]
          \<and> sorted_wrt (<) (map task_id new)
          \<and> (\<forall>t\<in>set ts. \<forall>n\<in>set new. task_id t < task_id n)"
    using r i srt gt by auto
qed

theorem getNextId_add_task_seq_witness:
  "[\<lparr>task_id = 3, title = ''a'', completed = True, createdAt = ''t0''\<rparr>,
    \<lparr>task_id = 7, title = ''b'', completed = False, createdAt = ''t1''\<rparr>] \<noteq> []
   \<and> readTasks \<lparr>tasks_file = Contents (Encoded
         [\<lparr>task_id = 3, title = ''a'', completed = True, createdAt = ''t0''\<rparr>,
          \<lparr>task_id = 7, title = ''b'', completed = False, createdAt = ''t1''\<rparr>]), writes = 0\<rparr>
       = (Inr [\<lparr>task_id = 3, title = ''a'', completed = True, createdAt = ''t0''\<rparr>,
               \<lparr>task_id = 7, title = ''b'', completed = False, createdAt = ''t1''\<rparr>],
          \<lparr>tasks_file = Contents (Encoded
            [\<lparr>task_id = 3, title = ''a'', completed = True, createdAt = ''t0''\<rparr>,
             \<lparr>task_id = 7, title = ''b'', completed = False, createdAt = ''t1''\<rparr>]), writes = 0\<rparr>)
   \<and> getNextId
        [\<lparr>task_id = 3, title = ''a'', completed = True, createdAt = ''t0''\<rparr>,
         \<lparr>task_id = 7, title = ''b'', completed = False, createdAt = ''t1''\<rparr>] = 8
   \<and> fst (readTasks (add_task_seq [(''c'', ''t2''), (''d'', ''t3'')]
         \<lparr>tasks_file = Contents (Encoded
           [\<lparr>task_id = 3, title = ''a'', completed = True, createdAt = ''t0''\<rparr>,
            \<lparr>task_id = 7, title = ''b'', completed = False, createdAt = ''t1''\<rparr>]), writes = 0\<rparr>))
       = Inr [\<lparr>task_id = 3, title = ''a'', completed = True, createdAt = ''t0''\<rparr>,
              \<lparr>task_id = 7, title = ''b'', completed = False, createdAt = ''t1''\<rparr>,
              \<lparr>task_id = 8, title = ''c'', completed = False, createdAt = ''t2''\<rparr>,
              \<lparr>task_id = 9, title = ''d'', completed = False, createdAt = ''t3''\<rparr>]"
proof -
  let ?a = "\<lparr>task_id = 3, title = ''a'', completed = True, createdAt = ''t0''\<rparr>"
  let ?b = "\<lparr>task_id = 7, title = ''b'', completed = False, createdAt = ''t1''\<rparr>"
  let ?d = "\<lparr>tasks_file = Contents (Encoded [?a, ?b]), writes = 0\<rparr>"
  let ?calls = "[(''c'', ''t2''), (''d'', ''t3'')]"
  note all = getNextId_add_task_seq [of "[?a, ?b]" ?d "[?a, ?b]" ?d "''c''" "''t2''" ?calls]
  have ne: "[?a, ?b] \<noteq> []" by simp
  have ld: "readTasks ?d = (Inr [?a, ?b], ?d)" by (simp add: readTasks_Encoded)
  have bd: "\<forall>t\<in>set [?a, ?b]. \<bar>task_id t\<bar> < 9007199254740992" by simp
  from all ne bd have "getNextId [?a, ?b] = Max (task_id ` set [?a, ?b]) + 1" by blast
  then have g: "getNextId [?a, ?b] = 8" by simp
  have le: "getNextId [?a, ?b] + int (length ?calls) \<le> 9007199254740992"
    unfolding g by simp
  from all ld bd le obtain new where
    r: "fst (readTasks (add_task_seq ?calls ?d)) = Inr ([?a, ?b] @ new)"
    and i: "map task_id new = map (\<lambda>k. getNextId [?a, ?b] + int k) [0..<length ?calls]"
    by blast
  have e: "fst (readTasks (add_task_seq ?calls ?d))
       = Inr [?a, ?b,
              \<lparr>task_id = 8, title = ''c'', completed = False, createdAt = ''t2''\<rparr>,
              \<lparr>task_id = 9, title = ''d'', completed = False, createdAt = ''t3''\<rparr>]"
    by (simp add: eval_defs)
  from ne ld g e show ?thesis by simp
qed

text \<open>
  C5. For every title, time and storage: if the load raises, add_task raises the same
  exception; if the load returns a collection, add_task writes that collection followed
  by a new task with the allocated id, the title, completed false and the current time as
  createdAt, and returns a confirmation showing the id, the title and the date.
\<close>

theorem add_task_appends:
  "(readTasks d = (Inl e, d0) \<longrightarrow> add_task ttl now d = (Inl e, d0))
   \<and> (readTasks d = (Inr tasks, d1) \<longrightarrow>
        add_task ttl now d =
          (Inr \<lparr>isError = False,
                content_text =
                  ''Task added successfully!'' @ newline @ newline
                  @ ''  ID:    '' @ Number_toString (getNextId tasks) @ newline
                  @ ''  Title: '' @ ttl @ newline
                  @ ''  Date:  '' @ now\<rparr>,
           d1\<lparr>tasks_file := Contents (JSON_stringify
                  (tasks @ [\<lparr>task_id = getNextId tasks, title = ttl,
                             completed = False, createdAt = now\<rparr>])),
              writes := writes d1 + 1\<rparr>))"
proof (intro conjI impI)
  assume "readTasks d = (Inl e, d0)"
  then show "add_task ttl now d = (Inl e, d0)" by (simp add: add_task_def)
next
  assume "readTasks d = (Inr tasks, d1)"
  from add_task_loaded [OF this, of ttl now]
  show "add_task ttl now d =
          (Inr \<lparr>isError = False,
                content_text =
                  ''Task added successfully!'' @ newline @ newline
                  @ ''  ID:    '' @ Number_toString (getNextId tasks) @ newline
                  @ ''  Title: '' @ ttl @ newline
                  @ ''  Date:  '' @ now\<rparr>,
           d1\<lparr>tasks_file := Contents (JSON_stringify
                  (tasks @ [\<lparr>task_id = getNextId tasks, title = ttl,
                             completed = False, createdAt = now\<rparr>])),
              writes := writes d1 + 1\<rparr>)"
    by (simp add: JSON_stringify_def)
qed

theorem add_task_appends_witness:
  "readTasks \<lparr>tasks_file = Absent, writes = 0\<rparr>
     = (Inr [], \<lparr>tasks_file = Contents (Encoded []), writes = 1\<rparr>)
   \<and> add_task ''Buy milk'' ''2024-01-01T00:00:00.000Z'' \<lparr>tasks_file = Absent, writes = 0\<rparr>
     = (Inr \<lparr>isError = False,
             content_text =
               ''Task added successfully!'' @ newline @ newline
               @ ''  ID:    1'' @ newline
               @ ''  Title: Buy milk'' @ newline
               @ ''  Date:  2024-01-01T00:00:00.000Z''\<rparr>,
        \<lparr>tasks_file = Contents (Encoded
           [\<lparr>task_id = 1, title = ''Buy milk'', completed = False,
              createdAt = ''2024-01-01T00:00:00.000Z''\<rparr>]),
         writes = 2\<rparr>)
   \<and> fst (list_tasks (snd (add_task ''Buy milk'' ''2024-01-01T00:00:00.000Z''
               \<lparr>tasks_file = Absent, writes = 0\<rparr>)))
     = Inr \<lparr>isError = False,
            content_text =
              ''Tasks (1):'' @ newline @ newline
              @ ''[1] Buy milk  (pending)  '' @ emdash
              @ '' created 2024-01-01T00:00:00.000Z''\<rparr>"
proof -
  have ld: "readTasks \<lparr>tasks_file = Absent, writes = 0\<rparr>
     = (Inr [], \<lparr>tasks_file = Contents (Encoded []), writes = 1\<rparr>)"
    by (simp add: readTasks_Absent)
  show ?thesis
    using ld add_task_appends
      [of "\<lparr>tasks_file = Absent, writes = 0\<rparr>" "SyntaxError"
          "\<lparr>tasks_file = Absent, writes = 0\<rparr>"
          "''Buy milk''" "''2024-01-01T00:00:00.000Z''" "[]"
          "\<lparr>tasks_file = Contents (Encoded []), writes = 1\<rparr>"]
    by (simp add: eval_defs)
qed

text \<open>
  C10. add_task raises exactly when the load raises, whatever the title. When the load
  returns a collection, add_task returns a result that is not flagged as an error and
  the task it stores carries the title as given; the empty title is stored like any
  other.
\<close>

theorem add_task_any_title:
  "isl (fst (add_task ttl now d)) = isl (fst (readTasks d))
   \<and> (readTasks d = (Inr ts, d1) \<longrightarrow>
        (\<exists>r. add_task ttl now d =
               (Inr r, d1\<lparr>tasks_file := Contents (JSON_stringify
                          (ts @ [\<lparr>task_id = getNextId ts, title = ttl,
                                   completed = False, createdAt = now\<rparr>])),
                         writes := writes d1 + 1\<rparr>)
             \<and> \<not> isError r)
        \<and> (\<exists>r. add_task [] now d =
               (Inr r, d1\<lparr>tasks_file := Contents (JSON_stringify
                          (ts @ [\<lparr>task_id = getNextId ts, title = [],
                                   completed = False, createdAt = now\<rparr>])),
                         writes := writes d1 + 1\<rparr>)
             \<and> \<not> isError r))"
proof (intro conjI impI)
  show "isl (fst (add_task ttl now d)) = isl (fst (readTasks d))"
  proof (cases "readTasks d")
    case (Pair res d')
    show ?thesis
    proof (cases res)
      case (Inl e)
      with Pair show ?thesis by (simp add: add_task_def)
    next
      case (Inr ts')
      with Pair add_task_loaded [of d ts' d' ttl now] show ?thesis by simp
    qed
  qed
next
  assume ld: "readTasks d = (Inr ts, d1)"
  show "\<exists>r. add_task ttl now d =
               (Inr r, d1\<lparr>tasks_file := Contents (JSON_stringify
                          (ts @ [\<lparr>task_id = getNextId ts, title = ttl,
                                   completed = False, createdAt = now\<rparr>])),
                         writes := writes d1 + 1\<rparr>)
             \<and> \<not> isError r"
    using add_task_loaded [OF ld, of ttl now] by (simp add: JSON_stringify_def)
  show "\<exists>r. add_task [] now d =
               (Inr r, d1\<lparr>tasks_file := Contents (JSON_stringify
                          (ts @ [\<lparr>task_id = getNextId ts, title = [],
                                   completed = False, createdAt = now\<rparr>])),
                         writes := writes d1 + 1\<rparr>)
             \<and> \<not> isError r"
    using add_task_loaded [OF ld, of "[]" now] by (simp add: JSON_stringify_def)
qed

theorem add_task_any_title_witness:
  "readTasks \<lparr>tasks_file = Absent, writes = 0\<rparr>
     = (Inr [], \<lparr>tasks_file = Contents (Encoded []), writes = 1\<rparr>)
   \<and> add_task [] ''2024-01-01T00:00:00.000Z'' \<lparr>tasks_file = Absent, writes = 0\<rparr>
     = (Inr \<lparr>isError = False,
             content_text =
               ''Task added successfully!'' @ newline @ newline
               @ ''  ID:    1'' @ newline
               @ ''  Title: '' @ newline
               @ ''  Date:  2024-01-01T00:00:00.000Z''\<rparr>,
        \<lparr>tasks_file = Contents (Encoded
           [\<lparr>task_id = 1, title = [], completed = False,
              createdAt = ''2024-01-01T00:00:00.000Z''\<rparr>]),
         writes = 2\<rparr>)"
  using add_task_any_title [of "[]" "''2024-01-01T00:00:00.000Z''"
      "\<lparr>tasks_file = Absent, writes = 0\<rparr>" "[]"
      "\<lparr>tasks_file = Contents (Encoded []), writes = 1\<rparr>"]
  by (simp add: eval_defs)

subsection \<open>complete_task\<close>

lemma find_ref_None: "find_ref P xs = None \<longleftrightarrow> (\<forall>x\<in>set xs. \<not> P x)"
  by (induction xs) (auto split: option.splits)

lemma find_ref_Some: "find_ref P xs = Some r \<Longrightarrow> r < length xs \<and> P (xs ! r)"
  by (induction xs arbitrary: r) (auto split: if_splits option.splits)

lemma find_ref_first: "find_ref P xs = Some r \<Longrightarrow> k < r \<Longrightarrow> \<not> P (xs ! k)"
proof (induction xs arbitrary: r k)
  case Nil
  then show ?case by simp
next
  case (Cons x xs)
  show ?case
  proof (cases "P x")
    case True
    with Cons.prems show ?thesis by simp
  next
    case False
    with Cons.prems obtain r' where r': "find_ref P xs = Some r'" "r = Suc r'"
      by (auto split: option.splits)
    show ?thesis
    proof (cases k)
      case 0
      with False show ?thesis by simp
    next
      case (Suc k')
      with Cons.prems r' have "k' < r'" by simp
      from Cons.IH [OF r'(1) this] Suc show ?thesis by simp
    qed
  qed
qed

lemma find_ref_update:
  "find_ref P xs = Some r \<Longrightarrow> P y \<Longrightarrow> find_ref P (xs[r := y]) = Some r"
  by (induction xs arbitrary: r) (auto split: if_splits option.splits)

lemma complete_task_not_found:
  assumes "readTasks d = (Inr ts, d1)" and "find_ref (\<lambda>t. task_id t = i) ts = None"
  shows "complete_task i d =
    (Inr \<lparr>isError = True,
          content_text = ''Error: No task found with ID '' @ Number_toString i @ ''.''\<rparr>, d1)"
  using assms by (simp add: complete_task_def)

lemma complete_task_already:
  assumes "readTasks d = (Inr ts, d1)" and "find_ref (\<lambda>t. task_id t = i) ts = Some r"
    and "completed (ts ! r)"
  shows "complete_task i d =
    (Inr \<lparr>isError = False,
          content_text =
            ''Task '' @ Number_toString i @ '' ('' @ dquote @ title (ts ! r)
            @ dquote @ '') is already marked as completed.''\<rparr>, d1)"
  using assms by (simp add: complete_task_def)

lemma complete_task_marks:
  assumes "readTasks d = (Inr ts, d1)" and "find_ref (\<lambda>t. task_id t = i) ts = Some r"
    and "\<not> completed (ts ! r)"
  shows "complete_task i d =
    (Inr \<lparr>isError = False,
          content_text =
            ''Task '' @ Number_toString i @ '' ('' @ dquote @ title (ts ! r)
            @ dquote @ '') marked as completed!''\<rparr>,
     d1\<lparr>tasks_file := Contents (Encoded (ts[r := (ts ! r)\<lparr>completed := True\<rparr>])),
        writes := writes d1 + 1\<rparr>)"
proof -
  have f: "tasks_file d1 = Contents (Encoded ts)" using assms(1) by (rule readTasks_Inr_file)
  have r: "r < length ts" using find_ref_Some [OF assms(2)] by simp
  show ?thesis
    using assms f r
    by (simp add: complete_task_def writeTasks_def writeFile_def JSON_stringify_def Let_def)
qed

lemma task_list_loaded:
  assumes "readTasks d = (Inr ts, d1)"
  shows "task_list d =
    (Inr \<lparr>uri = ''tasks://list'', mimeType = ''application/json'',
          resource_text = JSON_stringify ts\<rparr>, d1)"
  using assms by (simp add: task_list_def)

text \<open>
  C3. When the load returns a collection in which no task has the given id, complete_task
  returns a result flagged as an error whose text names the id, and the storage is the one
  the load left: nothing is written. If the file held the encoded collection, the storage
  is the one before the call, and the snapshot read after the call equals the snapshot
  read before it.
\<close>

theorem complete_task_unknown_id:
  assumes "readTasks d = (Inr ts, d1)" and "i \<notin> task_id ` set ts"
  shows "complete_task i d =
           (Inr \<lparr>isError = True,
                 content_text = ''Error: No task found with ID '' @ Number_toString i @ ''.''\<rparr>,
            d1)
         \<and> (tasks_file d = Contents (JSON_stringify ts) \<longrightarrow> snd (complete_task i d) = d)
         \<and> fst (task_list (snd (complete_task i d))) = fst (task_list d)"
proof -
  have nf: "find_ref (\<lambda>t. task_id t = i) ts = None"
    using assms(2) by (auto simp: find_ref_None)
  have c: "complete_task i d =
           (Inr \<lparr>isError = True,
                 content_text = ''Error: No task found with ID '' @ Number_toString i @ ''.''\<rparr>,
            d1)"
    using assms(1) nf by (rule complete_task_not_found)
  have same: "tasks_file d = Contents (JSON_stringify ts) \<longrightarrow> d1 = d"
    using assms(1) by (auto simp: JSON_stringify_def readTasks_Encoded)
  have "fst (task_list d1) = fst (task_list d)"
    using task_list_loaded [OF assms(1)] task_list_loaded [OF readTasks_again [OF assms(1)]]
    by simp
  with c same show ?thesis by simp
qed

theorem complete_task_unknown_id_witness:
  "readTasks \<lparr>tasks_file = Contents (Encoded
       [\<lparr>task_id = 1, title = ''Buy milk'', completed = False, createdAt = ''t0''\<rparr>]),
     writes = 0\<rparr>
     = (Inr [\<lparr>task_id = 1, title = ''Buy milk'', completed = False, createdAt = ''t0''\<rparr>],
        \<lparr>tasks_file = Contents (Encoded
           [\<lparr>task_id = 1, title = ''Buy milk'', completed = False, createdAt = ''t0''\<rparr>]),
         writes = 0\<rparr>)
   \<and> 2 \<notin> task_id ` set [\<lparr>task_id = 1, title = ''Buy milk'', completed = False, createdAt = ''t0''\<rparr>]
   \<and> complete_task 2 \<lparr>tasks_file = Contents (Encoded
       [\<lparr>task_id = 1, title = ''Buy milk'', completed = False, createdAt = ''t0''\<rparr>]),
     writes = 0\<rparr>
     = (Inr \<lparr>isError = True, content_text = ''Error: No task found with ID 2.''\<rparr>,
        \<lparr>tasks_file = Contents (Encoded
           [\<lparr>task_id = 1, title = ''Buy milk'', completed = False, createdAt = ''t0''\<rparr>]),
         writes = 0\<rparr>)"
proof -
  have ld: "readTasks \<lparr>tasks_file = Contents (Encoded
       [\<lparr>task_id = 1, title = ''Buy milk'', completed = False, createdAt = ''t0''\<rparr>]),
     writes = 0\<rparr>
     = (Inr [\<lparr>task_id = 1, title = ''Buy milk'', completed = False, createdAt = ''t0''\<rparr>],
        \<lparr>tasks_file = Contents (Encoded
           [\<lparr>task_id = 1, title = ''Buy milk'', completed = False, createdAt = ''t0''\<rparr>]),
         writes = 0\<rparr>)"
    by (simp add: readTasks_Encoded)
  have nf: "2 \<notin> task_id ` set [\<lparr>task_id = 1, title = ''Buy milk'', completed = False, createdAt = ''t0''\<rparr>]"
    by simp
  show ?thesis
    using ld nf complete_task_unknown_id [OF ld nf]
    by (simp add: Number_toString_def digits.simps)
qed

text \<open>What find returns is the first position whose element satisfies the predicate.\<close>

lemma find_ref_index:
  "r < length xs \<Longrightarrow> P (xs ! r) \<Longrightarrow> \<forall>k<r. \<not> P (xs ! k) \<Longrightarrow> find_ref P xs = Some r"
proof (induction xs arbitrary: r)
  case Nil
  then show ?case by simp
next
  case (Cons x xs)
  show ?case
  proof (cases r)
    case 0
    with Cons.prems show ?thesis by simp
  next
    case (Suc r')
    with Cons.prems have nx: "\<not> P x" by auto
    have "r' < length xs" and "P (xs ! r')" and "\<forall>k<r'. \<not> P (xs ! k)"
      using Cons.prems Suc by auto
    from Cons.IH [OF this] nx Suc show ?thesis by simp
  qed
qed

text \<open>
  C4. Let the load return a collection in which the first task with the given id sits at
  position \<open>r\<close> and is not completed. The first complete_task call writes the
  collection with the task at position \<open>r\<close> completed and every other task as it was,
  and reports success with the title of that task. A second call with the same id
  reports that the task is already completed and returns the storage of the first call
  unchanged, with no further write.
\<close>

theorem complete_task_twice:
  assumes "readTasks d = (Inr ts, d1)"
    and "r < length ts"
    and "task_id (ts ! r) = i"
    and "\<forall>k<r. task_id (ts ! k) \<noteq> i"
    and "\<not> completed (ts ! r)"
  shows "complete_task i d =
           (Inr \<lparr>isError = False,
                 content_text =
                   ''Task '' @ Number_toString i @ '' ('' @ dquote @ title (ts ! r)
                   @ dquote @ '') marked as completed!''\<rparr>,
            d1\<lparr>tasks_file := Contents (JSON_stringify (ts[r := (ts ! r)\<lparr>completed := True\<rparr>])),
               writes := writes d1 + 1\<rparr>)
         \<and> complete_task i (snd (complete_task i d)) =
           (Inr \<lparr>isError = False,
                 content_text =
                   ''Task '' @ Number_toString i @ '' ('' @ dquote @ title (ts ! r)
                   @ dquote @ '') is already marked as completed.''\<rparr>,
            snd (complete_task i d))"
proof -
  define ts' where "ts' = ts[r := (ts ! r)\<lparr>completed := True\<rparr>]"
  define d2 where "d2 = d1\<lparr>tasks_file := Contents (Encoded ts'), writes := writes d1 + 1\<rparr>"
  have fr: "find_ref (\<lambda>t. task_id t = i) ts = Some r"
    using assms(2,3,4) by (intro find_ref_index) simp_all
  have first: "complete_task i d =
           (Inr \<lparr>isError = False,
                 content_text =
                   ''Task '' @ Number_toString i @ '' ('' @ dquote @ title (ts ! r)
                   @ dquote @ '') marked as completed!''\<rparr>, d2)"
    unfolding d2_def ts'_def using assms(1) fr assms(5) by (rule complete_task_marks)
  have rd2: "readTasks d2 = (Inr ts', d2)"
    by (rule readTasks_Encoded) (simp add: d2_def)
  have f2: "find_ref (\<lambda>t. task_id t = i) ts' = Some r"
    unfolding ts'_def using fr by (rule find_ref_update) (simp add: assms(3))
  have c2: "completed (ts' ! r)" and t2: "title (ts' ! r) = title (ts ! r)"
    using assms(2) by (simp_all add: ts'_def)
  have second: "complete_task i d2 =
           (Inr \<lparr>isError = False,
                 content_text =
                   ''Task '' @ Number_toString i @ '' ('' @ dquote @ title (ts ! r)
                   @ dquote @ '') is already marked as completed.''\<rparr>, d2)"
    using complete_task_already [OF rd2 f2 c2] t2 by simp
  show ?thesis
    using first second by (simp add: d2_def ts'_def JSON_stringify_def)
qed

theorem complete_task_twice_witness:
  "complete_task 2 \<lparr>tasks_file = Contents (Encoded
       [\<lparr>task_id = 1, title = ''Buy milk'', completed = False, createdAt = ''t0''\<rparr>,
        \<lparr>task_id = 2, title = ''Walk dog'', completed = False, createdAt = ''t1''\<rparr>]),
     writes = 0\<rparr>
     = (Inr \<lparr>isError = False,
             content_text = ''Task 2 ('' @ dquote @ ''Walk dog'' @ dquote
               @ '') marked as completed!''\<rparr>,
        \<lparr>tasks_file = Contents (Encoded
           [\<lparr>task_id = 1, title = ''Buy milk'', completed = False, createdAt = ''t0''\<rparr>,
            \<lparr>task_id = 2, title = ''Walk dog'', completed = True, createdAt = ''t1''\<rparr>]),
         writes = 1\<rparr>)
   \<and> complete_task 2 \<lparr>tasks_file = Contents (Encoded
       [\<lparr>task_id = 1, title = ''Buy milk'', completed = False, createdAt = ''t0''\<rparr>,
        \<lparr>task_id = 2, title = ''Walk dog'', completed = True, createdAt = ''t1''\<rparr>]),
     writes = 1\<rparr>
     = (Inr \<lparr>isError = False,
             content_text = ''Task 2 ('' @ dquote @ ''Walk dog'' @ dquote
               @ '') is already marked as completed.''\<rparr>,
        \<lparr>tasks_file = Contents (Encoded
           [\<lparr>task_id = 1, title = ''Buy milk'', completed = False, createdAt = ''t0''\<rparr>,
            \<lparr>task_id = 2, title = ''Walk dog'', completed = True, createdAt = ''t1''\<rparr>]),
         writes = 1\<rparr>)"
proof -
  let ?a = "\<lparr>task_id = 1, title = ''Buy milk'', completed = False, createdAt = ''t0''\<rparr>"
  let ?b = "\<lparr>task_id = 2, title = ''Walk dog'', completed = False, createdAt = ''t1''\<rparr>"
  let ?d = "\<lparr>tasks_file = Contents (Encoded [?a, ?b]), writes = 0\<rparr>"
  have ld: "readTasks ?d = (Inr [?a, ?b], ?d)" by (simp add: readTasks_Encoded)
  have r: "(1::nat) < length [?a, ?b]" by simp
  have idr: "task_id ([?a, ?b] ! 1) = 2" by simp
  have fst: "\<forall>k<1::nat. task_id ([?a, ?b] ! k) \<noteq> 2" by simp
  have nc: "\<not> completed ([?a, ?b] ! 1)" by simp
  note both = complete_task_twice [OF ld r idr fst nc]
  have first: "complete_task 2 ?d
     = (Inr \<lparr>isError = False,
             content_text = ''Task 2 ('' @ dquote @ ''Walk dog'' @ dquote
               @ '') marked as completed!''\<rparr>,
        \<lparr>tasks_file = Contents (Encoded [?a, ?b\<lparr>completed := True\<rparr>]), writes = 1\<rparr>)"
    using conjunct1 [OF both]
    by (simp add: Number_toString_def digits.simps JSON_stringify_def)
  have second: "complete_task 2
       \<lparr>tasks_file = Contents (Encoded [?a, ?b\<lparr>completed := True\<rparr>]), writes = 1\<rparr>
     = (Inr \<lparr>isError = False,
             content_text = ''Task 2 ('' @ dquote @ ''Walk dog'' @ dquote
               @ '') is already marked as completed.''\<rparr>,
        \<lparr>tasks_file = Contents (Encoded [?a, ?b\<lparr>completed := True\<rparr>]), writes = 1\<rparr>)"
    using conjunct2 [OF both] unfolding first
    by (simp add: Number_toString_def digits.simps)
  show ?thesis using first second by simp
qed

subsection \<open>list_tasks\<close>

lemma split_lines_plain: "CHR 0x0A \<notin> set x \<Longrightarrow> split_lines x = [x]"
  by (induction x) auto

lemma split_lines_append:
  "CHR 0x0A \<notin> set x \<Longrightarrow> split_lines (x @ CHR 0x0A # rest) = x # split_lines rest"
  by (induction x) auto

lemma split_lines_join:
  assumes "\<forall>x\<in>set xs. CHR 0x0A \<notin> set x" and "xs \<noteq> []"
  shows "split_lines (join xs newline) = xs"
  using assms
proof (induction xs newline rule: join.induct)
  case 1
  then show ?case by simp
next
  case (2 x)
  then show ?case by (simp add: split_lines_plain)
next
  case (3 x y ys)
  then show ?case by (simp add: newline_def split_lines_append)
qed

lemma digit_not_newline: "k < 10 \<Longrightarrow> ''0123456789'' ! k \<noteq> CHR 0x0A"
proof -
  assume "k < 10"
  then have "''0123456789'' ! k \<in> set ''0123456789''" by (intro nth_mem) simp
  then show ?thesis by auto
qed

lemma digits_no_newline: "CHR 0x0A \<notin> set (digits n)"
proof (induction n rule: digits.induct)
  case (1 n)
  show ?case
  proof (cases "n < 10")
    case True
    then show ?thesis using digit_not_newline [of n] by (simp add: digits.simps [of n])
  next
    case False
    have "n mod 10 < 10" by simp
    from digit_not_newline [OF this] "1" [OF False] False
    show ?thesis by (simp add: digits.simps [of n])
  qed
qed

lemma Number_toString_no_newline: "CHR 0x0A \<notin> set (Number_toString n)"
  by (simp add: Number_toString_def digits_no_newline)

lemma format_task_no_newline:
  "CHR 0x0A \<notin> set (title t) \<Longrightarrow> CHR 0x0A \<notin> set (createdAt t)
   \<Longrightarrow> CHR 0x0A \<notin> set (format_task t)"
  by (simp add: format_task_def Let_def Number_toString_no_newline emdash_def)

lemma list_tasks_loaded:
  assumes "readTasks d = (Inr ts, d1)"
  shows "list_tasks d =
    (if ts = [] then
       (Inr \<lparr>isError = False,
             content_text = ''No tasks yet. Use add_task to create one!''\<rparr>, d1)
     else
       (Inr \<lparr>isError = False,
             content_text =
               ''Tasks ('' @ Number_toString (int (length ts)) @ ''):''
               @ newline @ newline @ join (map format_task ts) newline\<rparr>, d1))"
  using assms by (simp add: list_tasks_def Let_def)

lemma split_lines_listing:
  assumes "\<forall>x\<in>set xs. CHR 0x0A \<notin> set x" and "xs \<noteq> []" and "CHR 0x0A \<notin> set h"
  shows "split_lines (h @ newline @ newline @ join xs newline) = h # [] # xs"
proof -
  have "split_lines (h @ newline @ newline @ join xs newline)
          = h # split_lines (newline @ join xs newline)"
    using assms(3) by (simp add: newline_def split_lines_append)
  also have "split_lines (newline @ join xs newline) = [] # split_lines (join xs newline)"
    by (simp add: newline_def)
  finally show ?thesis using split_lines_join [OF assms(1,2)] by simp
qed

text \<open>
  C6, as stated, fails. A title that contains a line break is stored and listed as it
  is: the one task of this collection takes two lines of the listing, the first with the
  id and the start of the title, the second with the rest of the title, the status and
  the creation time.
\<close>

theorem list_tasks_in_order_counterexample:
  "fst (list_tasks \<lparr>tasks_file = Contents (Encoded
         [\<lparr>task_id = 1, title = [CHR ''a'', CHR 0x0A, CHR ''b''], completed = False,
            createdAt = ''t1''\<rparr>]), writes = 0\<rparr>)
     = Inr \<lparr>isError = False,
            content_text =
              ''Tasks (1):'' @ newline @ newline
              @ ''[1] a'' @ newline
              @ ''b  (pending)  '' @ emdash @ '' created t1''\<rparr>
   \<and> split_lines
        (''Tasks (1):'' @ newline @ newline
         @ ''[1] a'' @ newline
         @ ''b  (pending)  '' @ emdash @ '' created t1'')
     = [''Tasks (1):'', [], ''[1] a'', ''b  (pending)  '' @ emdash @ '' created t1'']"
  by (simp add: eval_defs newline_def emdash_def)

text \<open>
  C6, amended. On the empty collection list_tasks returns the no-tasks message. On a
  non-empty collection whose titles and creation times contain no line break, the lines
  of the listing are a header, an empty line, and then one line per task in the order of
  the collection: the line at position \<open>k\<close> shows the id, the title, done or pending,
  and the creation time of the task at position \<open>k\<close>. On every non-empty collection
  the listing is the header followed by these entries joined by line breaks, in the
  order of the collection.
\<close>

theorem list_tasks_in_order:
  assumes "readTasks d = (Inr ts, d1)"
  shows "(ts = [] \<longrightarrow>
            list_tasks d =
              (Inr \<lparr>isError = False,
                    content_text = ''No tasks yet. Use add_task to create one!''\<rparr>, d1))
         \<and> (ts \<noteq> [] \<and> (\<forall>t\<in>set ts. CHR 0x0A \<notin> set (title t) \<and> CHR 0x0A \<notin> set (createdAt t))
            \<longrightarrow>
            (\<exists>r. list_tasks d = (Inr r, d1) \<and> \<not> isError r
               \<and> split_lines (content_text r) =
                   (''Tasks ('' @ Number_toString (int (length ts)) @ ''):'')
                   # [] # map format_task ts)
            \<and> length (map format_task ts) = length ts
            \<and> (\<forall>k<length ts.
                  map format_task ts ! k =
                    ''['' @ Number_toString (task_id (ts ! k)) @ ''] '' @ title (ts ! k)
                    @ ''  ('' @ (if completed (ts ! k) then ''done'' else ''pending'')
                    @ '')  '' @ emdash @ '' created '' @ createdAt (ts ! k)))
         \<and> (ts \<noteq> [] \<longrightarrow>
            list_tasks d =
              (Inr \<lparr>isError = False,
                    content_text =
                      ''Tasks ('' @ Number_toString (int (length ts)) @ ''):''
                      @ newline @ newline @ join (map format_task ts) newline\<rparr>, d1))"
proof (intro conjI impI)
  assume "ts = []"
  then show "list_tasks d =
      (Inr \<lparr>isError = False,
            content_text = ''No tasks yet. Use add_task to create one!''\<rparr>, d1)"
    using list_tasks_loaded [OF assms] by simp
next
  assume "ts \<noteq> []"
  then show "list_tasks d =
      (Inr \<lparr>isError = False,
            content_text =
              ''Tasks ('' @ Number_toString (int (length ts)) @ ''):''
              @ newline @ newline @ join (map format_task ts) newline\<rparr>, d1)"
    using list_tasks_loaded [OF assms] by simp
next
  assume h: "ts \<noteq> [] \<and> (\<forall>t\<in>set ts. CHR 0x0A \<notin> set (title t) \<and> CHR 0x0A \<notin> set (createdAt t))"
  then have ne: "ts \<noteq> []"
    and nl: "\<forall>t\<in>set ts. CHR 0x0A \<notin> set (title t) \<and> CHR 0x0A \<notin> set (createdAt t)"
    by simp_all
  have l: "list_tasks d =
      (Inr \<lparr>isError = False,
            content_text =
              ''Tasks ('' @ Number_toString (int (length ts)) @ ''):''
              @ newline @ newline @ join (map format_task ts) newline\<rparr>, d1)"
    using list_tasks_loaded [OF assms] ne by simp
  have e: "\<forall>x\<in>set (map format_task ts). CHR 0x0A \<notin> set x"
    using nl by (auto simp: format_task_no_newline)
  have hd: "CHR 0x0A \<notin> set (''Tasks ('' @ Number_toString (int (length ts)) @ ''):'')"
    by (simp add: Number_toString_no_newline)
  have "split_lines ((''Tasks ('' @ Number_toString (int (length ts)) @ ''):'')
            @ newline @ newline @ join (map format_task ts) newline)
        = (''Tasks ('' @ Number_toString (int (length ts)) @ ''):'') # [] # map format_task ts"
    using e _ hd by (rule split_lines_listing) (simp add: ne)
  then show "\<exists>r. list_tasks d = (Inr r, d1) \<and> \<not> isError r
               \<and> split_lines (content_text r) =
                   (''Tasks ('' @ Number_toString (int (length ts)) @ ''):'')
                   # [] # map format_task ts"
    using l by simp
  show "length (map format_task ts) = length ts" by simp
  show "\<forall>k<length ts.
          map format_task ts ! k =
            ''['' @ Number_toString (task_id (ts ! k)) @ ''] '' @ title (ts ! k)
            @ ''  ('' @ (if completed (ts ! k) then ''done'' else ''pending'')
            @ '')  '' @ emdash @ '' created '' @ createdAt (ts ! k)"
    by (simp add: format_task_def Let_def)
qed

theorem list_tasks_in_order_witness:
  "list_tasks \<lparr>tasks_file = Contents (Encoded
       [\<lparr>task_id = 3, title = ''Walk dog'', completed = True, createdAt = ''t3''\<rparr>,
        \<lparr>task_id = 1, title = ''Buy milk'', completed = False, createdAt = ''t1''\<rparr>]),
     writes = 0\<rparr>
     = (Inr \<lparr>isError = False,
             content_text =
               ''Tasks (2):'' @ newline @ newline
               @ ''[3] Walk dog  (done)  '' @ emdash @ '' created t3'' @ newline
               @ ''[1] Buy milk  (pending)  '' @ emdash @ '' created t1''\<rparr>,
        \<lparr>tasks_file = Contents (Encoded
           [\<lparr>task_id = 3, title = ''Walk dog'', completed = True, createdAt = ''t3''\<rparr>,
            \<lparr>task_id = 1, title = ''Buy milk'', completed = False, createdAt = ''t1''\<rparr>]),
         writes = 0\<rparr>)
   \<and> split_lines
         (''Tasks (2):'' @ newline @ newline
          @ ''[3] Walk dog  (done)  '' @ emdash @ '' created t3'' @ newline
          @ ''[1] Buy milk  (pending)  '' @ emdash @ '' created t1'')
     = [''Tasks (2):'', [],
        ''[3] Walk dog  (done)  '' @ emdash @ '' created t3'',
        ''[1] Buy milk  (pending)  '' @ emdash @ '' created t1'']"
proof -
  let ?a = "\<lparr>task_id = 3, title = ''Walk dog'', completed = True, createdAt = ''t3''\<rparr>"
  let ?b = "\<lparr>task_id = 1, title = ''Buy milk'', completed = False, createdAt = ''t1''\<rparr>"
  let ?d = "\<lparr>tasks_file = Contents (Encoded [?a, ?b]), writes = 0\<rparr>"
  let ?text = "''Tasks (2):'' @ newline @ newline
          @ ''[3] Walk dog  (done)  '' @ emdash @ '' created t3'' @ newline
          @ ''[1] Buy milk  (pending)  '' @ emdash @ '' created t1''"
  have ld: "readTasks ?d = (Inr [?a, ?b], ?d)" by (simp add: readTasks_Encoded)
  note all = list_tasks_in_order [OF ld]
  have ne: "[?a, ?b] \<noteq> []" by simp
  have nl: "\<forall>t\<in>set [?a, ?b]. CHR 0x0A \<notin> set (title t) \<and> CHR 0x0A \<notin> set (createdAt t)"
    by simp
  from all ne have "list_tasks ?d =
      (Inr \<lparr>isError = False,
            content_text =
              ''Tasks ('' @ Number_toString (int (length [?a, ?b])) @ ''):''
              @ newline @ newline @ join (map format_task [?a, ?b]) newline\<rparr>, ?d)"
    by blast
  then have l: "list_tasks ?d = (Inr \<lparr>isError = False, content_text = ?text\<rparr>, ?d)"
    by (simp add: Number_toString_def digits.simps format_task_def)
  from all ne nl obtain r where
    r: "list_tasks ?d = (Inr r, ?d)"
    and s: "split_lines (content_text r) =
        (''Tasks ('' @ Number_toString (int (length [?a, ?b])) @ ''):'')
        # [] # map format_task [?a, ?b]"
    by blast
  from r l have "r = \<lparr>isError = False, content_text = ?text\<rparr>" by simp
  then have "content_text r = ?text" by (simp only: tool_result.simps)
  with s have "split_lines ?text =
        (''Tasks ('' @ Number_toString (int (length [?a, ?b])) @ ''):'')
        # [] # map format_task [?a, ?b]"
    by simp
  then have sl: "split_lines ?text
     = [''Tasks (2):'', [],
        ''[3] Walk dog  (done)  '' @ emdash @ '' created t3'',
        ''[1] Buy milk  (pending)  '' @ emdash @ '' created t1'']"
    by (simp add: Number_toString_def digits.simps format_task_def)
  from l sl show ?thesis by simp
qed

subsection \<open>What an operation may change in a task\<close>

lemma preserved_refl: "preserved ts ts"
  by (simp add: preserved_def)

lemma preserved_trans: "preserved a b \<Longrightarrow> preserved b c \<Longrightarrow> preserved a c"
  unfolding preserved_def by auto

lemma preserved_append: "preserved ts (ts @ new)"
  by (simp add: preserved_def nth_append)

lemma preserved_complete: "preserved ts (ts[r := (ts ! r)\<lparr>completed := True\<rparr>])"
  by (cases "r < length ts") (auto simp: preserved_def nth_list_update)

lemma list_tasks_state:
  assumes "readTasks d = (Inr ts, d1)"
  shows "snd (list_tasks d) = d1"
  using assms by (simp add: list_tasks_def Let_def)

lemma complete_task_cases:
  assumes f: "tasks_file d = Contents (Encoded ts)"
  shows "snd (complete_task i d) = d
         \<or> (\<exists>r<length ts. \<not> completed (ts ! r) \<and> task_id (ts ! r) = i
              \<and> snd (complete_task i d)
                  = d\<lparr>tasks_file := Contents (Encoded (ts[r := (ts ! r)\<lparr>completed := True\<rparr>])),
                      writes := writes d + 1\<rparr>)"
proof -
  have rd: "readTasks d = (Inr ts, d)" using f by (rule readTasks_Encoded)
  show ?thesis
  proof (cases "find_ref (\<lambda>t. task_id t = i) ts")
    case None
    from complete_task_not_found [OF rd None] show ?thesis by simp
  next
    case (Some r)
    show ?thesis
    proof (cases "completed (ts ! r)")
      case True
      from complete_task_already [OF rd Some True] show ?thesis by simp
    next
      case False
      from complete_task_marks [OF rd Some False] find_ref_Some [OF Some] False
      show ?thesis by auto
    qed
  qed
qed

lemma run_op_preserved:
  assumes f: "tasks_file d = Contents (Encoded ts)"
  shows "\<exists>ts'. tasks_file (run_op op d) = Contents (Encoded ts') \<and> preserved ts ts'"
proof -
  have rd: "readTasks d = (Inr ts, d)" using f by (rule readTasks_Encoded)
  show ?thesis
  proof (cases op)
    case (AddTask ttl now)
    from add_task_loaded [OF rd, of ttl now] AddTask show ?thesis
      by (auto simp: preserved_append)
  next
    case ListTasks
    with list_tasks_state [OF rd] f show ?thesis by (auto simp: preserved_refl)
  next
    case (CompleteTask i)
    from complete_task_cases [OF f, of i] show ?thesis
    proof
      assume "snd (complete_task i d) = d"
      with CompleteTask f show ?thesis by (auto simp: preserved_refl)
    next
      assume "\<exists>r<length ts. \<not> completed (ts ! r) \<and> task_id (ts ! r) = i
              \<and> snd (complete_task i d)
                  = d\<lparr>tasks_file := Contents (Encoded (ts[r := (ts ! r)\<lparr>completed := True\<rparr>])),
                      writes := writes d + 1\<rparr>"
      then obtain r where
        "snd (complete_task i d)
           = d\<lparr>tasks_file := Contents (Encoded (ts[r := (ts ! r)\<lparr>completed := True\<rparr>])),
               writes := writes d + 1\<rparr>"
        by blast
      with CompleteTask show ?thesis by (auto simp: preserved_complete)
    qed
  next
    case Snapshot
    with task_list_loaded [OF rd] f show ?thesis by (auto simp: preserved_refl)
  qed
qed

lemma run_ops_preserved:
  assumes "tasks_file d = Contents (Encoded ts)"
  shows "\<exists>ts'. tasks_file (run_ops ops d) = Contents (Encoded ts') \<and> preserved ts ts'"
  using assms
proof (induction ops arbitrary: d ts)
  case Nil
  then show ?case by (auto simp: preserved_refl)
next
  case (Cons op ops)
  from run_op_preserved [OF Cons.prems, of op] obtain ts1 where
    s1: "tasks_file (run_op op d) = Contents (Encoded ts1)" and p1: "preserved ts ts1"
    by blast
  from Cons.IH [OF s1] obtain ts' where
    s2: "tasks_file (run_ops ops (run_op op d)) = Contents (Encoded ts')"
    and p2: "preserved ts1 ts'"
    by blast
  from preserved_trans [OF p1 p2] s2 show ?case by auto
qed

text \<open>
  C7. From a file holding an encoded collection \<open>ts\<close>, after any sequence of operations
  the file holds a collection in which every task of \<open>ts\<close> is at its position with
  the same id, title and creation time, and is completed if it was completed. list_tasks
  and the snapshot leave the storage as it is; add_task leaves the tasks of \<open>ts\<close> as
  they are and appends one; complete_task either leaves the collection as it is or sets
  the completed field of one task that was not completed.
\<close>

theorem tasks_only_completed:
  "tasks_file d = Contents (JSON_stringify ts) \<longrightarrow>
     (\<exists>ts'. tasks_file (run_ops ops d) = Contents (JSON_stringify ts') \<and> preserved ts ts')
     \<and> run_op ListTasks d = d
     \<and> run_op Snapshot d = d
     \<and> (\<exists>n. tasks_file (run_op (AddTask ttl now) d) = Contents (JSON_stringify (ts @ [n])))
     \<and> (tasks_file (run_op (CompleteTask i) d) = Contents (JSON_stringify ts)
        \<or> (\<exists>r<length ts. \<not> completed (ts ! r) \<and> task_id (ts ! r) = i
              \<and> tasks_file (run_op (CompleteTask i) d)
                  = Contents (JSON_stringify (ts[r := (ts ! r)\<lparr>completed := True\<rparr>]))))"
proof
  assume "tasks_file d = Contents (JSON_stringify ts)"
  then have f: "tasks_file d = Contents (Encoded ts)" by (simp add: JSON_stringify_def)
  have rd: "readTasks d = (Inr ts, d)" using f by (rule readTasks_Encoded)
  have a: "\<exists>ts'. tasks_file (run_ops ops d) = Contents (JSON_stringify ts') \<and> preserved ts ts'"
    using run_ops_preserved [OF f, of ops] by (simp add: JSON_stringify_def)
  have b: "run_op ListTasks d = d" using list_tasks_state [OF rd] by simp
  have c: "run_op Snapshot d = d" using task_list_loaded [OF rd] by simp
  have e: "\<exists>n. tasks_file (run_op (AddTask ttl now) d) = Contents (JSON_stringify (ts @ [n]))"
    using add_task_loaded [OF rd, of ttl now] by (simp add: JSON_stringify_def)
  have g: "tasks_file (run_op (CompleteTask i) d) = Contents (JSON_stringify ts)
        \<or> (\<exists>r<length ts. \<not> completed (ts ! r) \<and> task_id (ts ! r) = i
              \<and> tasks_file (run_op (CompleteTask i) d)
                  = Contents (JSON_stringify (ts[r := (ts ! r)\<lparr>completed := True\<rparr>])))"
    using complete_task_cases [OF f, of i] f by (auto simp: JSON_stringify_def)
  from a b c e g
  show "(\<exists>ts'. tasks_file (run_ops ops d) = Contents (JSON_stringify ts') \<and> preserved ts ts')
     \<and> run_op ListTasks d = d
     \<and> run_op Snapshot d = d
     \<and> (\<exists>n. tasks_file (run_op (AddTask ttl now) d) = Contents (JSON_stringify (ts @ [n])))
     \<and> (tasks_file (run_op (CompleteTask i) d) = Contents (JSON_stringify ts)
        \<or> (\<exists>r<length ts. \<not> completed (ts ! r) \<and> task_id (ts ! r) = i
              \<and> tasks_file (run_op (CompleteTask i) d)
                  = Contents (JSON_stringify (ts[r := (ts ! r)\<lparr>completed := True\<rparr>]))))"
    by blast
qed

theorem tasks_only_completed_witness:
  "tasks_file \<lparr>tasks_file = Contents (Encoded
       [\<lparr>task_id = 1, title = ''Buy milk'', completed = False, createdAt = ''t1''\<rparr>]),
     writes = 0\<rparr>
     = Contents (JSON_stringify
       [\<lparr>task_id = 1, title = ''Buy milk'', completed = False, createdAt = ''t1''\<rparr>])
   \<and> tasks_file (run_ops
        [CompleteTask 1, AddTask ''Walk dog'' ''t2'', ListTasks, Snapshot, CompleteTask 1,
         CompleteTask 5]
        \<lparr>tasks_file = Contents (Encoded
           [\<lparr>task_id = 1, title = ''Buy milk'', completed = False, createdAt = ''t1''\<rparr>]),
         writes = 0\<rparr>)
     = Contents (JSON_stringify
       [\<lparr>task_id = 1, title = ''Buy milk'', completed = True, createdAt = ''t1''\<rparr>,
        \<lparr>task_id = 2, title = ''Walk dog'', completed = False, createdAt = ''t2''\<rparr>])
   \<and> preserved
       [\<lparr>task_id = 1, title = ''Buy milk'', completed = False, createdAt = ''t1''\<rparr>]
       [\<lparr>task_id = 1, title = ''Buy milk'', completed = True, createdAt = ''t1''\<rparr>,
        \<lparr>task_id = 2, title = ''Walk dog'', completed = False, createdAt = ''t2''\<rparr>]"
proof -
  have f: "tasks_file \<lparr>tasks_file = Contents (Encoded
       [\<lparr>task_id = 1, title = ''Buy milk'', completed = False, createdAt = ''t1''\<rparr>]),
     writes = 0\<rparr>
     = Contents (JSON_stringify
       [\<lparr>task_id = 1, title = ''Buy milk'', completed = False, createdAt = ''t1''\<rparr>])"
    by (simp add: JSON_stringify_def)
  have r: "tasks_file (run_ops
        [CompleteTask 1, AddTask ''Walk dog'' ''t2'', ListTasks, Snapshot, CompleteTask 1,
         CompleteTask 5]
        \<lparr>tasks_file = Contents (Encoded
           [\<lparr>task_id = 1, title = ''Buy milk'', completed = False, createdAt = ''t1''\<rparr>]),
         writes = 0\<rparr>)
     = Contents (JSON_stringify
       [\<lparr>task_id = 1, title = ''Buy milk'', completed = True, createdAt = ''t1''\<rparr>,
        \<lparr>task_id = 2, title = ''Walk dog'', completed = False, createdAt = ''t2''\<rparr>])"
    by (simp add: eval_defs)
  from tasks_only_completed
    [of "\<lparr>tasks_file = Contents (Encoded
           [\<lparr>task_id = 1, title = ''Buy milk'', completed = False, createdAt = ''t1''\<rparr>]),
         writes = 0\<rparr>"
        "[\<lparr>task_id = 1, title = ''Buy milk'', completed = False, createdAt = ''t1''\<rparr>]"
        "[CompleteTask 1, AddTask ''Walk dog'' ''t2'', ListTasks, Snapshot, CompleteTask 1,
         CompleteTask 5]" "''x''" "''t''" 1] f
  have "\<exists>ts'. tasks_file (run_ops
        [CompleteTask 1, AddTask ''Walk dog'' ''t2'', ListTasks, Snapshot, CompleteTask 1,
         CompleteTask 5]
        \<lparr>tasks_file = Contents (Encoded
           [\<lparr>task_id = 1, title = ''Buy milk'', completed = False, createdAt = ''t1''\<rparr>]),
         writes = 0\<rparr>) = Contents (JSON_stringify ts')
      \<and> preserved
         [\<lparr>task_id = 1, title = ''Buy milk'', completed = False, createdAt = ''t1''\<rparr>] ts'"
    by blast
  then have "preserved
       [\<lparr>task_id = 1, title = ''Buy milk'', completed = False, createdAt = ''t1''\<rparr>]
       [\<lparr>task_id = 1, title = ''Buy milk'', completed = True, createdAt = ''t1''\<rparr>,
        \<lparr>task_id = 2, title = ''Walk dog'', completed = False, createdAt = ''t2''\<rparr>]"
    unfolding r by (simp add: JSON_stringify_def)
  with f r show ?thesis by simp
qed

end
